theory Spec2Isabelle
  imports Main "HOL-Library.Sublist"
begin

section \<open>Values shared by the bakery service\<close>

text \<open>
  Go strings and byte slices are both sequences of bytes; an Isabelle \<open>char\<close> is a byte.
\<close>

type_synonym bytes = string

text \<open>
  Go error values. \<open>ErrNotFound\<close> is the package's sentinel, compared by identity in the
  source, so it is a constructor of its own. \<open>Errorf\<close> is an error made by \<open>fmt.Errorf\<close>
  (its format and operands, not rendered). \<open>VerificationError\<close> is the struct of
  service.go with its \<open>Reason\<close>. \<open>Errgo\<close> is the error value of the errgo library: message
  format, operands, underlying error and recorded cause.
\<close>

datatype error =
    ErrNotFound
  | Errorf string "operand list"
  | VerificationError error
  | Errgo string "operand list" "error option" "error option"
and operand = OpStr string | OpInt int | OpErr error

text \<open>
  The errgo library (gopkg.in/errgo.v1), as documented there: \<open>New\<close> and \<open>Newf\<close> make an
  error with no underlying error and no cause; \<open>Cause\<close> is the recorded cause, or the
  error itself when none is recorded; \<open>Notef\<close> wraps an error under a message and
  records no cause; \<open>Mask\<close> wraps an error under an empty message and keeps the cause of
  the wrapped error only when one of the \<open>pass\<close> predicates accepts it.
\<close>

definition errgo_New :: "string \<Rightarrow> error" where
  "errgo_New msg = Errgo msg [] None None"

definition errgo_Newf :: "string \<Rightarrow> operand list \<Rightarrow> error" where
  "errgo_Newf f args = Errgo f args None None"

fun errgo_Cause :: "error \<Rightarrow> error" where
  "errgo_Cause (Errgo f args underlying (Some cause)) = cause"
| "errgo_Cause err = err"

definition errgo_Notef :: "error \<Rightarrow> string \<Rightarrow> operand list \<Rightarrow> error" where
  "errgo_Notef underlying f args = Errgo f args (Some underlying) None"

definition errgo_Mask :: "error \<Rightarrow> (error \<Rightarrow> bool) list \<Rightarrow> error" where
  "errgo_Mask underlying pass =
     Errgo [] [] (Some underlying)
       (if list_ex (\<lambda>p. p (errgo_Cause underlying)) pass
        then Some (errgo_Cause underlying) else None)"

definition errgo_Any :: "error \<Rightarrow> bool" where
  "errgo_Any err = True"

text \<open>\<open>isVerificationError\<close> of service.go: a type assertion to \<open>*VerificationError\<close>.\<close>

fun isVerificationError :: "error \<Rightarrow> bool" where
  "isVerificationError (VerificationError reason) = True"
| "isVerificationError err = False"

section \<open>The string functions of the Go library used by service.go\<close>

text \<open>
  \<open>strings.Index s sep\<close> is the index of the first occurrence of \<open>sep\<close> in \<open>s\<close>, or
  \<open>-1\<close>. \<open>strings.HasPrefix s p\<close> tests whether \<open>s\<close> begins with \<open>p\<close>.
\<close>

fun strings_Index :: "string \<Rightarrow> string \<Rightarrow> int" where
  "strings_Index [] sep = (if sep = [] then 0 else - 1)"
| "strings_Index (c # cs) sep =
     (if prefix sep (c # cs) then 0
      else (let r = strings_Index cs sep in if r < 0 then - 1 else r + 1))"

definition strings_HasPrefix :: "string \<Rightarrow> string \<Rightarrow> bool" where
  "strings_HasPrefix s p = prefix p s"

text \<open>
  \<open>strings.Split s sep\<close> cuts \<open>s\<close> at every occurrence of \<open>sep\<close>, left to right. For an
  empty separator the library cuts after every character; the source never passes one,
  and the model cuts after every byte there.
\<close>

function strings_Split :: "string \<Rightarrow> string \<Rightarrow> string list" where
  "strings_Split s sep =
     (if sep = [] then map (\<lambda>c. [c]) s
      else if strings_Index s sep < 0 then [s]
      else take (nat (strings_Index s sep)) s
             # strings_Split (drop (nat (strings_Index s sep) + length sep) s) sep)"
  by pat_completeness auto
termination
proof (relation "measure (\<lambda>(s, sep). length s)")
  show "wf (measure (\<lambda>(s, sep). length s))"
    by simp
next
  fix s sep :: string
  assume sep: "sep \<noteq> []" and found: "\<not> strings_Index s sep < 0"
  from sep found have "s \<noteq> []"
    by (cases s) auto
  with sep show "((drop (nat (strings_Index s sep) + length sep) s, sep), (s, sep))
      \<in> measure (\<lambda>(s, sep). length s)"
    by (cases sep) auto
qed

text \<open>
  \<open>strings.SplitN s sep n\<close>: at most \<open>n\<close> pieces, the last one the unsplit remainder;
  \<open>n = 0\<close> gives no piece (nil) and a negative \<open>n\<close> is \<open>Split\<close>. \<open>genSplit\<close> is the
  library's loop, which cuts at most \<open>k\<close> times.
\<close>

fun genSplit :: "string \<Rightarrow> string \<Rightarrow> nat \<Rightarrow> string list" where
  "genSplit s sep 0 = [s]"
| "genSplit s sep (Suc k) =
     (if strings_Index s sep < 0 then [s]
      else take (nat (strings_Index s sep)) s
             # genSplit (drop (nat (strings_Index s sep) + length sep) s) sep k)"

definition strings_SplitN :: "string \<Rightarrow> string \<Rightarrow> int \<Rightarrow> string list" where
  "strings_SplitN s sep n =
     (if n = 0 then []
      else if n < 0 then strings_Split s sep
      else if sep = [] then
        map (\<lambda>c. [c]) (take (nat n - 1) s)
          @ (if length s < nat n then [] else [drop (nat n - 1) s])
      else genSplit s sep (nat n - 1))"

section \<open>Caveats and the caveat language\<close>

text \<open>
  \<open>checkers.Caveat\<close>: a condition to check and the location of the third party that
  checks it; the location is empty for a first-party caveat.
\<close>

record Caveat =
  Location :: string
  Condition :: string

definition CondDeclared :: string where
  "CondDeclared = ''declared''"

definition CondNeedDeclared :: string where
  "CondNeedDeclared = ''need-declared''"

text \<open>
  Modelled from the spec: \<open>checkers.ParseCaveat\<close> is not among the sources. A condition
  is \<open><cond>\<close> or \<open><cond> <arg>\<close>, split at the first space, and the argument may be
  empty. The function also returns an error, which both callers in service.go discard;
  only the two strings are modelled.
\<close>

definition ParseCaveat :: "string \<Rightarrow> string \<times> string" where
  "ParseCaveat cav =
     (if strings_Index cav '' '' < 0 then (cav, [])
      else (take (nat (strings_Index cav '' '')) cav,
            drop (nat (strings_Index cav '' '') + 1) cav))"

text \<open>
  Modelled from the spec: \<open>checkers.DeclaredCaveat\<close> is not among the sources. It is the
  first-party caveat \<open>declared <name> <value>\<close>; with the empty value the condition ends
  in the space that separates the name from the value.
\<close>

definition DeclaredCaveat :: "string \<Rightarrow> string \<Rightarrow> Caveat" where
  "DeclaredCaveat name val =
     \<lparr>Location = [], Condition = CondDeclared @ '' '' @ name @ '' '' @ val\<rparr>"

text \<open>
  A third-party checker (the interface \<open>ThirdPartyChecker\<close>) takes the caveat id and
  the condition and returns extra caveats or an error.
\<close>

type_synonym ThirdPartyChecker = "string \<Rightarrow> string \<Rightarrow> error + Caveat list"

section \<open>checkNeedDeclared\<close>

text \<open>
  The map \<open>declared\<close> of \<open>checkNeedDeclared\<close> is a Go \<open>map[string]bool\<close>; reading a
  missing key gives \<open>false\<close>.
\<close>

definition lookup_bool :: "(string \<rightharpoonup> bool) \<Rightarrow> string \<Rightarrow> bool" where
  "lookup_bool m k = (case m k of None \<Rightarrow> False | Some b \<Rightarrow> b)"

text \<open>
  The first loop over the returned caveats (lines 380 to 395): third-party caveats and
  conditions other than \<open>declared\<close> are skipped, a \<open>declared\<close> argument that does not
  split in two is an error, and otherwise the name is recorded.
\<close>

fun collectDeclared :: "Caveat list \<Rightarrow> (string \<rightharpoonup> bool) \<Rightarrow> error + (string \<rightharpoonup> bool)" where
  "collectDeclared [] declared = Inr declared"
| "collectDeclared (cav # cavs) declared =
     (if Location cav \<noteq> [] then collectDeclared cavs declared
      else if fst (ParseCaveat (Condition cav)) \<noteq> CondDeclared then collectDeclared cavs declared
      else if length (strings_SplitN (snd (ParseCaveat (Condition cav))) '' '' 2) \<noteq> 2
        then Inl (errgo_Newf ''declared caveat has no value'' [])
      else collectDeclared cavs
             (declared(hd (strings_SplitN (snd (ParseCaveat (Condition cav))) '' '' 2) \<mapsto> True)))"

text \<open>
  The second loop (lines 398 to 402): an empty declaration is appended for every
  required name that was not recorded.
\<close>

fun appendUndeclared :: "string list \<Rightarrow> (string \<rightharpoonup> bool) \<Rightarrow> Caveat list \<Rightarrow> Caveat list" where
  "appendUndeclared [] declared caveats = caveats"
| "appendUndeclared (d # ds) declared caveats =
     appendUndeclared ds declared
       (if \<not> lookup_bool declared d then caveats @ [DeclaredCaveat d []] else caveats)"

definition checkNeedDeclared :: "string \<Rightarrow> string \<Rightarrow> ThirdPartyChecker \<Rightarrow> error + Caveat list" where
  "checkNeedDeclared caveatId arg checker =
     (let i = strings_Index arg '' '' in
      if i \<le> 0 then
        Inl (errgo_Newf ''need-declared caveat requires an argument, got %q'' [OpStr arg])
      else
        let needDeclared = strings_Split (take (nat i) arg) '','' in
        if list_ex (\<lambda>d. d = []) needDeclared then
          Inl (errgo_New ''need-declared caveat with empty required attribute'')
        else if length needDeclared = 0 then
          Inl (Errorf ''need-declared caveat with no required attributes'' [])
        else
          (case checker caveatId (drop (nat i + 1) arg) of
             Inl err \<Rightarrow> Inl (errgo_Mask err [errgo_Any])
           | Inr caveats \<Rightarrow>
               (case collectDeclared caveats Map.empty of
                  Inl err \<Rightarrow> Inl err
                | Inr declared \<Rightarrow> Inr (appendUndeclared needDeclared declared caveats))))"

section \<open>The macaroon and the free function Discharge\<close>

text \<open>
  Modelled from the spec: the macaroon library (gopkg.in/macaroon.v1) is not among the
  sources. A macaroon carries a location, an id, its caveats in order and the running
  HMAC; a caveat of a macaroon carries its identifier, its verification id (empty for
  a first-party caveat) and its location.
\<close>

record MCaveat =
  cav_id :: string
  cav_vid :: bytes
  cav_location :: string

record Macaroon =
  m_location :: string
  m_id :: string
  m_caveats :: "MCaveat list"
  m_sig :: bytes

record KeyPair =
  Public :: bytes
  Private :: bytes

text \<open>
  What service.go calls and the sources do not hold is a parameter of the model: the
  key functions of keys.go, the box encoder and decoder of codec.go, the library's
  keyed hash, key derivation, encryption and verification, the declared-attribute
  inference and the checker composition of the checkers package, and the system's
  random source. \<open>'w\<close> is the state of the world that the random source and the storage
  read and change; \<open>'c\<close> is \<open>checkers.Checker\<close>.
\<close>

record ('w, 'c) deps =
  GenerateKey :: "'w \<Rightarrow> (error + KeyPair) \<times> 'w"
  UnmarshalText :: "string \<Rightarrow> error + bytes"
  PublicKey_String :: "bytes \<Rightarrow> string"
  rand_Read :: "nat \<Rightarrow> 'w \<Rightarrow> (error + bytes) \<times> 'w"
  encodeCaveatId :: "KeyPair \<Rightarrow> string \<Rightarrow> bytes \<Rightarrow> bytes \<Rightarrow> 'w \<Rightarrow> (error + string) \<times> 'w"
  decodeCaveatId :: "KeyPair \<Rightarrow> string \<Rightarrow> error + (bytes \<times> string)"
  keyedHash :: "bytes \<Rightarrow> bytes \<Rightarrow> bytes"
  makeKey :: "bytes \<Rightarrow> bytes"
  encrypt :: "bytes \<Rightarrow> bytes \<Rightarrow> 'w \<Rightarrow> (error + bytes) \<times> 'w"
  packetFits :: "string \<Rightarrow> bool"
  Verify :: "Macaroon \<Rightarrow> bytes \<Rightarrow> (string \<Rightarrow> error option) \<Rightarrow> Macaroon list \<Rightarrow> error option"
  InferDeclared :: "Macaroon list \<Rightarrow> (string \<rightharpoonup> string)"
  checkers_New :: "(string \<rightharpoonup> string) \<Rightarrow> 'c \<Rightarrow> (string \<Rightarrow> error option)"

text \<open>
  Modelled from the spec: \<open>macaroon.New\<close>. The new macaroon has no caveat and its tag
  is the keyed hash of the id under the key derived from the root key. The source
  checks an error of \<open>macaroon.New\<close> that the spec does not describe: the library refuses
  a location or an id too big for its packet format, and that test is \<open>packetFits\<close>.
\<close>

definition macaroon_New :: "('w, 'c) deps \<Rightarrow> bytes \<Rightarrow> string \<Rightarrow> string \<Rightarrow> error + Macaroon" where
  "macaroon_New D rootKey ident loc =
     (if \<not> packetFits D loc then Inl (Errorf ''macaroon location too big'' [])
      else if \<not> packetFits D ident then Inl (Errorf ''macaroon identifier too big'' [])
      else Inr \<lparr>m_location = loc, m_id = ident, m_caveats = [],
                m_sig = keyedHash D (makeKey D rootKey) ident\<rparr>)"

text \<open>
  \<open>Discharge\<close> (lines 314 to 344). The error of \<open>ParseCaveat\<close> is not looked at. The
  logging call has no effect on the result and is left out.
\<close>

definition Discharge ::
  "('w, 'c) deps \<Rightarrow> KeyPair \<Rightarrow> ThirdPartyChecker \<Rightarrow> string \<Rightarrow> error + (Macaroon \<times> Caveat list)" where
  "Discharge D kp checker ident =
     (case decodeCaveatId D kp ident of
        Inl err \<Rightarrow> Inl (errgo_Notef err ''discharger cannot decode caveat id'' [])
      | Inr (rootKey, condition) \<Rightarrow>
          (case (if fst (ParseCaveat condition) = CondNeedDeclared
                 then checkNeedDeclared ident (snd (ParseCaveat condition)) checker
                 else checker ident condition) of
             Inl err \<Rightarrow> Inl (errgo_Mask err [errgo_Any])
           | Inr caveats \<Rightarrow>
               (case macaroon_New D rootKey ident [] of
                  Inl err \<Rightarrow> Inl (errgo_Mask err [])
                | Inr m \<Rightarrow> Inr (m, caveats))))"

section \<open>The service\<close>

text \<open>
  A storage item holds the root key of a macaroon. The store of a service is the
  wrapper of storage.go around the host's \<open>Storage\<close>; only its \<open>Get\<close> is called by the
  functions modelled here, and it reads the world.
\<close>

record storageItem =
  RootKey :: bytes

record 'w storage =
  store_Get :: "string \<Rightarrow> 'w \<Rightarrow> (error + storageItem) \<times> 'w"

text \<open>A first-party checker takes a condition and returns an error or nil.\<close>

type_synonym FirstPartyChecker = "string \<Rightarrow> error option"

text \<open>A locator (\<open>PublicKeyLocator\<close>) gives the public key of a location, or an error.\<close>

type_synonym PublicKeyLocator = "string \<Rightarrow> error + bytes"

record boxEncoder =
  enc_key :: KeyPair

record 'w Service =
  svc_location :: string
  svc_store :: "'w storage option"
  svc_checker :: "FirstPartyChecker option"
  svc_encoder :: boxEncoder
  svc_key :: KeyPair
  svc_locator :: PublicKeyLocator

record 'w NewServiceParams =
  p_Location :: string
  p_Store :: "'w storage option"
  p_Key :: "KeyPair option"
  p_Locator :: "PublicKeyLocator option"

text \<open>
  Modelled from the spec: \<open>PublicKeyLocatorMap\<close> is not among the sources. It is the
  in-memory locator: a location in the map has its key, and every other lookup fails;
  the empty map fails all lookups. The error of a failed lookup is taken to be the
  package's not-found sentinel.
\<close>

definition PublicKeyLocatorMap :: "(string \<rightharpoonup> bytes) \<Rightarrow> PublicKeyLocator" where
  "PublicKeyLocatorMap m loc = (case m loc of Some pk \<Rightarrow> Inr pk | None \<Rightarrow> Inl ErrNotFound)"

definition newBoxEncoder :: "KeyPair \<Rightarrow> boxEncoder" where
  "newBoxEncoder k = \<lparr>enc_key = k\<rparr>"

text \<open>
  \<open>NewService\<close> (lines 57 to 79): a missing key is generated, which can fail, and a nil
  locator becomes \<open>PublicKeyLocatorMap(nil)\<close>.
\<close>

definition NewService ::
  "('w, 'c) deps \<Rightarrow> 'w NewServiceParams \<Rightarrow> 'w \<Rightarrow> (error + 'w Service) \<times> 'w" where
  "NewService D p w =
     (case (case p_Key p of None \<Rightarrow> GenerateKey D w | Some k \<Rightarrow> (Inr k, w)) of
        (Inl err, w') \<Rightarrow> (Inl err, w')
      | (Inr k, w') \<Rightarrow>
          (Inr \<lparr>svc_location = p_Location p,
                svc_store = p_Store p,
                svc_checker = None,
                svc_encoder = newBoxEncoder k,
                svc_key = k,
                svc_locator = (case p_Locator p of
                                 None \<Rightarrow> PublicKeyLocatorMap Map.empty
                               | Some l \<Rightarrow> l)\<rparr>, w'))"

text \<open>A call either returns or panics.\<close>

datatype 'a outcome = Panic string | Return 'a

text \<open>\<open>CheckWithKey\<close> (lines 137 to 150).\<close>

definition CheckWithKey ::
  "('w, 'c) deps \<Rightarrow> 'w Service \<Rightarrow> Macaroon list \<Rightarrow> bytes \<Rightarrow> FirstPartyChecker \<Rightarrow> error option" where
  "CheckWithKey D svc ms rootKey checker =
     (case ms of
        [] \<Rightarrow> Some (VerificationError (Errorf ''no macaroons in slice'' []))
      | m # discharges \<Rightarrow>
          (case Verify D m rootKey checker discharges of
             Some err \<Rightarrow> Some (VerificationError err)
           | None \<Rightarrow> None))"

text \<open>\<open>Check\<close> (lines 107 to 129).\<close>

definition Check ::
  "('w, 'c) deps \<Rightarrow> 'w Service \<Rightarrow> Macaroon list \<Rightarrow> FirstPartyChecker \<Rightarrow> 'w
     \<Rightarrow> error option outcome \<times> 'w" where
  "Check D svc ms checker w =
     (case ms of
        [] \<Rightarrow> (Return (Some (VerificationError (Errorf ''no macaroons in slice'' []))), w)
      | m # discharges \<Rightarrow>
          (case svc_store svc of
             None \<Rightarrow>
               (Panic ''bakery: Store is not specified, use CheckWithKey or create Service with a store'', w)
           | Some st \<Rightarrow>
               (case store_Get st (m_id m) w of
                  (Inl err, w') \<Rightarrow>
                    (if errgo_Cause err = ErrNotFound
                     then (Return (Some (VerificationError (errgo_New ''macaroon not found in storage''))), w')
                     else (Return (Some (errgo_Notef err ''cannot get macaroon'' [])), w'))
                | (Inr item, w') \<Rightarrow>
                    (Return (CheckWithKey D svc ms (RootKey item) checker), w'))))"

text \<open>
  \<open>CheckAnyM\<close> (lines 158 to 180). The loop over \<open>assert\<close> stores every asserted value
  into the inferred map, which is the map override \<open>++\<close>. \<open>CheckAnyM_loop\<close> is the loop
  over the slices; \<open>err\<close> is the variable of that name, nil before the first slice.
  \<open>errgo.Mask\<close> of nil is nil. The three results are the declared map, the slice and
  the error, each of them nil or not.
\<close>

fun CheckAnyM_loop ::
  "('w, 'c) deps \<Rightarrow> 'w Service \<Rightarrow> Macaroon list list \<Rightarrow> (string \<rightharpoonup> string) \<Rightarrow> 'c
     \<Rightarrow> error option \<Rightarrow> 'w
     \<Rightarrow> ((string \<rightharpoonup> string) option \<times> Macaroon list option \<times> error option) outcome \<times> 'w" where
  "CheckAnyM_loop D svc [] assert checker err w =
     (Return (None, None, map_option (\<lambda>e. errgo_Mask e [isVerificationError]) err), w)"
| "CheckAnyM_loop D svc (ms # mss) assert checker err w =
     (case Check D svc ms (checkers_New D (InferDeclared D ms ++ assert) checker) w of
        (Panic msg, w') \<Rightarrow> (Panic msg, w')
      | (Return None, w') \<Rightarrow> (Return (Some (InferDeclared D ms ++ assert), Some ms, None), w')
      | (Return (Some e), w') \<Rightarrow> CheckAnyM_loop D svc mss assert checker (Some e) w')"

definition CheckAnyM ::
  "('w, 'c) deps \<Rightarrow> 'w Service \<Rightarrow> Macaroon list list \<Rightarrow> (string \<rightharpoonup> string) \<Rightarrow> 'c \<Rightarrow> 'w
     \<Rightarrow> ((string \<rightharpoonup> string) option \<times> Macaroon list option \<times> error option) outcome \<times> 'w" where
  "CheckAnyM D svc mss assert checker w =
     (if length mss = 0
      then (Return (None, None, Some (VerificationError (errgo_Newf ''no macaroons'' []))), w)
      else CheckAnyM_loop D svc mss assert checker None w)"

text \<open>\<open>CheckAny\<close> (lines 196 to 199) drops the slice.\<close>

definition CheckAny ::
  "('w, 'c) deps \<Rightarrow> 'w Service \<Rightarrow> Macaroon list list \<Rightarrow> (string \<rightharpoonup> string) \<Rightarrow> 'c \<Rightarrow> 'w
     \<Rightarrow> ((string \<rightharpoonup> string) option \<times> error option) outcome \<times> 'w" where
  "CheckAny D svc mss assert checker w =
     (case CheckAnyM D svc mss assert checker w of
        (Panic msg, w') \<Rightarrow> (Panic msg, w')
      | (Return (attrs, ms, err), w') \<Rightarrow> (Return (attrs, err), w'))"

section \<open>Adding caveats\<close>

text \<open>
  Modelled from the spec: \<open>AddFirstPartyCaveat\<close> and \<open>AddThirdPartyCaveat\<close> of the
  macaroon library. A first-party caveat is appended with an empty verification id and
  location, and the tag becomes the keyed hash of the condition under the old tag. For
  a third-party caveat the verification id is the encryption of the caveat's root key
  under the current tag, and the tag becomes the keyed hash of the verification id
  followed by the caveat id. A failed encryption leaves the macaroon as it was.
\<close>

definition AddFirstPartyCaveat :: "('w, 'c) deps \<Rightarrow> Macaroon \<Rightarrow> string \<Rightarrow> Macaroon" where
  "AddFirstPartyCaveat D m condition =
     m\<lparr>m_caveats := m_caveats m @ [\<lparr>cav_id = condition, cav_vid = [], cav_location = []\<rparr>],
       m_sig := keyedHash D (m_sig m) condition\<rparr>"

definition AddThirdPartyCaveat ::
  "('w, 'c) deps \<Rightarrow> Macaroon \<Rightarrow> bytes \<Rightarrow> string \<Rightarrow> string \<Rightarrow> 'w \<Rightarrow> (error option \<times> Macaroon) \<times> 'w" where
  "AddThirdPartyCaveat D m rootKey ident loc w =
     (case encrypt D (m_sig m) rootKey w of
        (Inl err, w') \<Rightarrow> ((Some err, m), w')
      | (Inr vid, w') \<Rightarrow>
          ((None, m\<lparr>m_caveats := m_caveats m @ [\<lparr>cav_id = ident, cav_vid = vid, cav_location = loc\<rparr>],
                    m_sig := keyedHash D (m_sig m) (vid @ ident)\<rparr>), w'))"

text \<open>\<open>randomBytes\<close> (lines 406 to 413) reads the system's random source.\<close>

definition randomBytes :: "('w, 'c) deps \<Rightarrow> nat \<Rightarrow> 'w \<Rightarrow> (error + bytes) \<times> 'w" where
  "randomBytes D n w =
     (case rand_Read D n w of
        (Inl err, w') \<Rightarrow>
          (Inl (Errorf ''cannot generate %d random bytes: %v'' [OpInt (int n), OpErr err]), w')
      | (Inr b, w') \<Rightarrow> (Inr b, w'))"


text \<open>
  \<open>AddCaveat\<close> (lines 271 to 307). The macaroon is changed in place in the source; the
  model returns the error (or nil) together with the macaroon after the call.
  \<open>AddCaveat_target\<close> is the choice of the third party's key and of the caveat to encode
  (lines 277 to 294).
\<close>

definition AddCaveat_target ::
  "('w, 'c) deps \<Rightarrow> 'w Service \<Rightarrow> Caveat \<Rightarrow> error + (bytes \<times> Caveat)" where
  "AddCaveat_target D svc cav =
     (if strings_HasPrefix (Location cav) ''local '' then
        (case UnmarshalText D (drop (length ''local '') (Location cav)) of
           Inl err \<Rightarrow>
             Inl (errgo_Notef err
                    ''cannot unmarshal client's public key in local third-party caveat'' [])
         | Inr k \<Rightarrow>
             (if Condition cav \<noteq> [] then
                Inl (errgo_New ''cannot specify caveat condition in local third-party caveat'')
              else Inr (k, cav\<lparr>Location := ''local'', Condition := ''true''\<rparr>)))
      else
        (case svc_locator svc (Location cav) of
           Inl err \<Rightarrow>
             Inl (errgo_Notef err ''cannot find public key for location %q''
                    [OpStr (Location cav)])
         | Inr k \<Rightarrow> Inr (k, cav)))"

definition AddCaveat ::
  "('w, 'c) deps \<Rightarrow> 'w Service \<Rightarrow> Macaroon \<Rightarrow> Caveat \<Rightarrow> 'w \<Rightarrow> (error option \<times> Macaroon) \<times> 'w" where
  "AddCaveat D svc m cav w =
     (if Location cav = [] then ((None, AddFirstPartyCaveat D m (Condition cav)), w)
      else
        (case AddCaveat_target D svc cav of
           Inl err \<Rightarrow> ((Some err, m), w)
         | Inr (thirdPartyPub, cav') \<Rightarrow>
             (case randomBytes D 24 w of
                (Inl err, w1) \<Rightarrow>
                  ((Some (errgo_Notef err ''cannot generate third party secret'' []), m), w1)
              | (Inr rootKey, w1) \<Rightarrow>
                  (case encodeCaveatId D (enc_key (svc_encoder svc)) (Condition cav') rootKey
                          thirdPartyPub w1 of
                     (Inl err, w2) \<Rightarrow>
                       ((Some (errgo_Notef err ''cannot create third party caveat id at %q''
                                 [OpStr (Location cav')]), m), w2)
                   | (Inr ident, w2) \<Rightarrow>
                       (case AddThirdPartyCaveat D m rootKey ident (Location cav') w2 of
                          ((Some err, m'), w3) \<Rightarrow>
                            ((Some (errgo_Notef err ''cannot add third party caveat'' []), m'), w3)
                        | ((None, m'), w3) \<Rightarrow> ((None, m'), w3))))))"

section \<open>The claims' own words\<close>

text \<open>
  Two predicates that follow the wording of the specification rather than the source,
  to be compared with what \<open>checkNeedDeclared\<close> computes. \<open>spec_declares cav name\<close>: the
  caveat is a first-party caveat \<open>declared <name> <value>\<close>, the value possibly empty.
  \<open>spec_declared_no_value cav\<close>: the caveat is a first-party \<open>declared\<close> caveat whose
  argument has no value part.
\<close>

definition spec_declares :: "Caveat \<Rightarrow> string \<Rightarrow> bool" where
  "spec_declares cav name =
     (Location cav = [] \<and> prefix (''declared '' @ name @ '' '') (Condition cav))"

definition spec_declared_no_value :: "Caveat \<Rightarrow> bool" where
  "spec_declared_no_value cav =
     (Location cav = [] \<and>
      (Condition cav = ''declared'' \<or>
       (prefix ''declared '' (Condition cav) \<and> CHR '' '' \<notin> set (drop 9 (Condition cav)))))"

text \<open>
  \<open>spec_all_fail\<close>: every slice of the list fails its check, in order, each check
  starting in the world the one before left; the result is the errors and the world
  after the last check. The checker of a slice is the one \<open>CheckAnyM\<close> builds for it.
\<close>

fun spec_all_fail ::
  "('w, 'c) deps \<Rightarrow> 'w Service \<Rightarrow> (string \<rightharpoonup> string) \<Rightarrow> 'c \<Rightarrow> Macaroon list list \<Rightarrow> 'w
     \<Rightarrow> (error list \<times> 'w) option" where
  "spec_all_fail D svc assert checker [] w = Some ([], w)"
| "spec_all_fail D svc assert checker (ms # mss) w =
     (case Check D svc ms (checkers_New D (InferDeclared D ms ++ assert) checker) w of
        (Return (Some e), w') \<Rightarrow>
          (case spec_all_fail D svc assert checker mss w' of
             None \<Rightarrow> None
           | Some (es, w'') \<Rightarrow> Some (e # es, w''))
      | (Return None, w') \<Rightarrow> None
      | (Panic msg, w') \<Rightarrow> None)"

section \<open>An environment to run the model in\<close>

text \<open>
  A small concrete instance of the parameters, with readable stand-ins for the
  cryptography, in which the functions above can be evaluated. The world is the list
  of the events so far: every read of the store, of the random source and every use
  of a key is written at its end. Keys are four bytes and kept as their text.
\<close>

definition demo_hash :: "bytes \<Rightarrow> bytes \<Rightarrow> bytes" where
  "demo_hash k d = ''H('' @ k @ '','' @ d @ '')''"

definition demo_makeKey :: "bytes \<Rightarrow> bytes" where
  "demo_makeKey k = ''K('' @ k @ '')''"

definition demo_Verify ::
  "Macaroon \<Rightarrow> bytes \<Rightarrow> (string \<Rightarrow> error option) \<Rightarrow> Macaroon list \<Rightarrow> error option" where
  "demo_Verify m rootKey check discharges =
     (if m_sig m \<noteq> foldl (\<lambda>s c. demo_hash s (cav_vid c @ cav_id c))
                      (demo_hash (demo_makeKey rootKey) (m_id m)) (m_caveats m)
      then Some (Errorf ''signature mismatch after caveat verification'' [])
      else (case filter (\<lambda>r. r \<noteq> None)
                  (map (\<lambda>c. check (cav_id c)) (filter (\<lambda>c. cav_location c = []) (m_caveats m))) of
              [] \<Rightarrow> None
            | e # es \<Rightarrow> e))"

definition demo_declared_step :: "(string \<rightharpoonup> string) \<Rightarrow> MCaveat \<Rightarrow> (string \<rightharpoonup> string)" where
  "demo_declared_step inferred c =
     (if cav_location c = [] \<and> fst (ParseCaveat (cav_id c)) = CondDeclared
         \<and> length (strings_SplitN (snd (ParseCaveat (cav_id c))) '' '' 2) = 2
      then (case inferred (hd (strings_SplitN (snd (ParseCaveat (cav_id c))) '' '' 2)) of
              None \<Rightarrow> inferred(hd (strings_SplitN (snd (ParseCaveat (cav_id c))) '' '' 2)
                         \<mapsto> last (strings_SplitN (snd (ParseCaveat (cav_id c))) '' '' 2))
            | Some old \<Rightarrow>
                (if old = last (strings_SplitN (snd (ParseCaveat (cav_id c))) '' '' 2) then inferred
                 else inferred(hd (strings_SplitN (snd (ParseCaveat (cav_id c))) '' '' 2) \<mapsto> [])))
      else inferred)"

definition demo_InferDeclared :: "Macaroon list \<Rightarrow> (string \<rightharpoonup> string)" where
  "demo_InferDeclared ms = foldl demo_declared_step Map.empty (concat (map m_caveats ms))"

definition demo_checkers_New ::
  "(string \<rightharpoonup> string) \<Rightarrow> FirstPartyChecker \<Rightarrow> FirstPartyChecker" where
  "demo_checkers_New declared checker cond =
     (if fst (ParseCaveat cond) = CondDeclared then
        (if length (strings_SplitN (snd (ParseCaveat cond)) '' '' 2) = 2
            \<and> declared (hd (strings_SplitN (snd (ParseCaveat cond)) '' '' 2))
                = Some (last (strings_SplitN (snd (ParseCaveat cond)) '' '' 2))
         then None
         else Some (Errorf ''declared attribute does not match'' [OpStr cond]))
      else checker cond)"

definition demo_deps :: "(string list, FirstPartyChecker) deps" where
  "demo_deps =
     \<lparr>GenerateKey = (\<lambda>w. (Inr \<lparr>Public = ''gpub'', Private = ''gprv''\<rparr>, w @ [''generate key''])),
      UnmarshalText = (\<lambda>text. if length text = 4 then Inr text
                              else Inl (Errorf ''wrong length for key, got %d want %d''
                                          [OpInt (int (length text)), OpInt 4])),
      PublicKey_String = (\<lambda>k. k),
      rand_Read = (\<lambda>n w. (Inr (replicate n (CHR ''r'')), w @ [''read random''])),
      encodeCaveatId = (\<lambda>kp condition rootKey pub w.
         (Inr (rootKey @ ''|'' @ condition), w @ [''encode for '' @ pub])),
      decodeCaveatId = (\<lambda>kp ident.
         if CHR ''|'' \<in> set ident
         then Inr (takeWhile (\<lambda>x. x \<noteq> CHR ''|'') ident, tl (dropWhile (\<lambda>x. x \<noteq> CHR ''|'') ident))
         else Inl (Errorf ''cannot decode'' [])),
      keyedHash = demo_hash,
      makeKey = demo_makeKey,
      encrypt = (\<lambda>k d w. (Inr (''E('' @ k @ '','' @ d @ '')''), w @ [''encrypt''])),
      packetFits = (\<lambda>d. length d \<le> 64),
      Verify = demo_Verify,
      InferDeclared = demo_InferDeclared,
      checkers_New = demo_checkers_New\<rparr>"

definition demo_key :: KeyPair where
  "demo_key = \<lparr>Public = ''pub1'', Private = ''prv1''\<rparr>"

definition demo_extra :: "Caveat list" where
  "demo_extra =
     [DeclaredCaveat ''user'' ''bob'',
      \<lparr>Location = ''https://auth'', Condition = ''declared group x''\<rparr>,
      \<lparr>Location = [], Condition = ''time-before 2030''\<rparr>]"

definition demo_checker :: ThirdPartyChecker where
  "demo_checker ident cond =
     (if cond = ''access-allowed'' then Inr demo_extra
      else if cond = ''no-value'' then Inr [\<lparr>Location = [], Condition = ''declared user''\<rparr>]
      else Inl (Errorf ''caveat not recognized'' []))"

definition demo_store :: "string list storage" where
  "demo_store =
     \<lparr>store_Get = (\<lambda>ident w.
        (if ident = ''m1'' then Inr \<lparr>RootKey = ''k1''\<rparr>
         else if ident = ''broken'' then Inl (Errorf ''disk failure'' [])
         else Inl ErrNotFound, w @ [''get '' @ ident]))\<rparr>"

definition demo_params :: "string list NewServiceParams" where
  "demo_params =
     \<lparr>p_Location = ''https://svc'', p_Store = Some demo_store, p_Key = Some demo_key,
      p_Locator = None\<rparr>"

definition demo_svc :: "string list Service" where
  "demo_svc =
     \<lparr>svc_location = ''https://svc'', svc_store = Some demo_store, svc_checker = None,
      svc_encoder = newBoxEncoder demo_key, svc_key = demo_key,
      svc_locator = PublicKeyLocatorMap Map.empty\<rparr>"

definition demo_accept :: FirstPartyChecker where
  "demo_accept cond = (if cond = ''ok'' then None else Some (Errorf ''caveat not recognized'' []))"

definition demo_macaroon :: "string \<Rightarrow> string list \<Rightarrow> Macaroon" where
  "demo_macaroon ident conds =
     foldl (AddFirstPartyCaveat demo_deps)
       \<lparr>m_location = ''https://svc'', m_id = ident, m_caveats = [],
        m_sig = demo_hash (demo_makeKey ''k1'') ident\<rparr> conds"

text \<open>
  A variant of the environment whose inference is wrong on purpose (it infers the user
  \<open>mallory\<close> from any slice), and a way of building checkers that refuses every
  condition unless the declared map says the user is \<open>alice\<close>.
\<close>

definition demo_infer_mallory :: "(string list, FirstPartyChecker) deps" where
  "demo_infer_mallory = demo_deps\<lparr>InferDeclared := (\<lambda>ms. [''user'' \<mapsto> ''mallory''])\<rparr>"

definition demo_strict_New ::
  "(string \<rightharpoonup> string) \<Rightarrow> FirstPartyChecker \<Rightarrow> FirstPartyChecker" where
  "demo_strict_New declared checker =
     (if declared ''user'' = Some ''alice'' then demo_checkers_New declared checker
      else (\<lambda>cond. Some ErrNotFound))"

section \<open>Facts about the string functions and the caveat language\<close>

declare strings_Split.simps [simp del]

lemma strings_Index_char:
  "strings_Index s [c] = (if c \<in> set s then int (length (takeWhile (\<lambda>x. x \<noteq> c) s)) else - 1)"
  by (induction s) (auto simp: Let_def)

lemma strings_Split_nonempty: "sep \<noteq> [] \<Longrightarrow> strings_Split s sep \<noteq> []"
  by (subst strings_Split.simps) simp

lemma take_length_takeWhile: "take (length (takeWhile P s)) s = takeWhile P s"
  by (induction s) auto

lemma drop_length_takeWhile: "drop (length (takeWhile P s)) s = dropWhile P s"
  by (induction s) auto

lemma drop_Suc_length_takeWhile: "drop (Suc (length (takeWhile P s))) s = tl (dropWhile P s)"
  by (simp add: drop_Suc tl_drop [symmetric] drop_length_takeWhile)

lemma strings_SplitN_space_2:
  "strings_SplitN s '' '' 2 =
     (if CHR '' '' \<in> set s
      then [takeWhile (\<lambda>x. x \<noteq> CHR '' '') s, tl (dropWhile (\<lambda>x. x \<noteq> CHR '' '') s)]
      else [s])"
proof -
  have "genSplit s '' '' (Suc 0) =
     (if CHR '' '' \<in> set s
      then [takeWhile (\<lambda>x. x \<noteq> CHR '' '') s, tl (dropWhile (\<lambda>x. x \<noteq> CHR '' '') s)]
      else [s])"
    by (simp add: strings_Index_char take_length_takeWhile drop_Suc_length_takeWhile)
  then show ?thesis
    by (simp add: strings_SplitN_def)
qed

lemma ParseCaveat_space:
  "ParseCaveat s =
     (if CHR '' '' \<in> set s
      then (takeWhile (\<lambda>x. x \<noteq> CHR '' '') s, tl (dropWhile (\<lambda>x. x \<noteq> CHR '' '') s))
      else (s, []))"
  by (simp add: ParseCaveat_def strings_Index_char take_length_takeWhile drop_Suc_length_takeWhile)

lemma appendUndeclared_eq:
  "appendUndeclared ds declared caveats =
     caveats @ map (\<lambda>d. DeclaredCaveat d []) (filter (\<lambda>d. \<not> lookup_bool declared d) ds)"
  by (induction ds arbitrary: caveats) auto

lemma takeWhile_upto: "c \<notin> set a \<Longrightarrow> takeWhile (\<lambda>x. x \<noteq> c) (a @ c # b) = a"
  by (induction a) auto

lemma dropWhile_upto: "c \<notin> set a \<Longrightarrow> dropWhile (\<lambda>x. x \<noteq> c) (a @ c # b) = c # b"
  by (induction a) auto

lemma ParseCaveat_append:
  "CHR '' '' \<notin> set a \<Longrightarrow> ParseCaveat (a @ CHR '' '' # b) = (a, b)"
  by (simp add: ParseCaveat_space takeWhile_upto dropWhile_upto)

lemma ParseCaveat_no_space:
  "CHR '' '' \<notin> set c \<Longrightarrow> ParseCaveat c = (c, [])"
  by (simp add: ParseCaveat_space)

lemma ParseCaveat_cases:
  obtains (word) "CHR '' '' \<notin> set c" "ParseCaveat c = (c, [])"
  | (split) a b where "c = a @ CHR '' '' # b" "CHR '' '' \<notin> set a" "ParseCaveat c = (a, b)"
proof (cases "CHR '' '' \<in> set c")
  case False
  then show ?thesis using word by (simp add: ParseCaveat_no_space)
next
  case True
  then obtain a b where c: "c = a @ CHR '' '' # b" and a: "CHR '' '' \<notin> set a"
    by (meson split_list_first)
  then show ?thesis using split ParseCaveat_append by blast
qed

lemma SplitN_2_cases:
  "strings_SplitN (a @ CHR '' '' # b) '' '' 2 = [a, b]" if "CHR '' '' \<notin> set a"
  using that by (simp add: strings_SplitN_space_2 takeWhile_upto dropWhile_upto)

lemma SplitN_2_no_space:
  "CHR '' '' \<notin> set s \<Longrightarrow> strings_SplitN s '' '' 2 = [s]"
  by (simp add: strings_SplitN_space_2)

lemma lookup_bool_upd [simp]: "lookup_bool (m(k \<mapsto> True)) d = (d = k \<or> lookup_bool m d)"
  by (simp add: lookup_bool_def)

lemma lookup_bool_empty [simp]: "lookup_bool Map.empty d = False"
  by (simp add: lookup_bool_def)

lemma prefix_space_unique:
  assumes "CHR '' '' \<notin> set a" "CHR '' '' \<notin> set d"
  shows "prefix (d @ CHR '' '' # r) (a @ CHR '' '' # b) \<longleftrightarrow> d = a \<and> prefix r b"
proof
  assume "prefix (d @ CHR '' '' # r) (a @ CHR '' '' # b)"
  then obtain z where z: "a @ CHR '' '' # b = d @ CHR '' '' # (r @ z)"
    by (auto simp: prefix_def)
  have "takeWhile (\<lambda>x. x \<noteq> CHR '' '') (a @ CHR '' '' # b) = a"
    using assms(1) by (simp add: takeWhile_upto)
  moreover have "takeWhile (\<lambda>x. x \<noteq> CHR '' '') (d @ CHR '' '' # (r @ z)) = d"
    using assms(2) by (simp add: takeWhile_upto)
  ultimately have "d = a" using z by simp
  with z show "d = a \<and> prefix r b" by (auto simp: prefix_def)
next
  assume "d = a \<and> prefix r b"
  then show "prefix (d @ CHR '' '' # r) (a @ CHR '' '' # b)" by simp
qed

lemma collectDeclared_step:
  "collectDeclared (cav # cavs) m0 =
     (if spec_declared_no_value cav then Inl (errgo_Newf ''declared caveat has no value'' [])
      else collectDeclared cavs
        (if Location cav = [] \<and> prefix ''declared '' (Condition cav)
         then m0(takeWhile (\<lambda>x. x \<noteq> CHR '' '') (drop 9 (Condition cav)) \<mapsto> True) else m0))"
proof (cases "Location cav = []")
  case False
  then show ?thesis by (simp add: spec_declared_no_value_def)
next
  case loc: True
  show ?thesis
  proof (cases "Condition cav" rule: ParseCaveat_cases)
    case word
    then show ?thesis using loc
      by (auto simp: spec_declared_no_value_def CondDeclared_def SplitN_2_no_space prefix_def)
  next
    case (split a b)
    show ?thesis
    proof (cases "a = ''declared''")
      case False
      then have "\<not> prefix ''declared '' (Condition cav)"
        using split prefix_space_unique [of a "''declared''" "[]" b] by simp
      moreover have "CHR '' '' \<in> set (Condition cav)" using split by simp
      then have "Condition cav \<noteq> ''declared''" by auto
      ultimately show ?thesis using loc split False
        by (simp add: spec_declared_no_value_def CondDeclared_def)
    next
      case True
      then have c: "Condition cav = ''declared '' @ b" using split by simp
      show ?thesis
      proof (cases "CHR '' '' \<in> set b")
        case False
        then show ?thesis using loc split True c
          by (simp add: spec_declared_no_value_def CondDeclared_def SplitN_2_no_space)
      next
        case sp: True
        then show ?thesis using loc split True c
          by (simp add: spec_declared_no_value_def CondDeclared_def strings_SplitN_space_2)
      qed
    qed
  qed
qed

declare collectDeclared.simps(2) [simp del]

lemma spec_declares_iff:
  assumes "CHR '' '' \<notin> set d" "\<not> spec_declared_no_value cav"
  shows "spec_declares cav d \<longleftrightarrow>
           Location cav = [] \<and> prefix ''declared '' (Condition cav) \<and>
           takeWhile (\<lambda>x. x \<noteq> CHR '' '') (drop 9 (Condition cav)) = d"
proof (cases "Location cav = [] \<and> prefix ''declared '' (Condition cav)")
  case False
  have "prefix ''declared '' (''declared '' @ d @ '' '')"
    by simp
  then have "prefix (''declared '' @ d @ '' '') (Condition cav) \<Longrightarrow> prefix ''declared '' (Condition cav)"
    using prefix_order.trans by blast
  with False show ?thesis
    by (auto simp: spec_declares_def)
next
  case True
  then obtain b where c: "Condition cav = ''declared '' @ b"
    by (auto simp: prefix_def)
  with True assms(2) have "CHR '' '' \<in> set b"
    by (auto simp: spec_declared_no_value_def)
  then obtain a' b' where b: "b = a' @ CHR '' '' # b'" and a': "CHR '' '' \<notin> set a'"
    by (meson split_list_first)
  have "prefix (''declared '' @ d @ '' '') (Condition cav) \<longleftrightarrow> prefix (d @ CHR '' '' # []) (a' @ CHR '' '' # b')"
    using c b by simp
  also have "\<dots> \<longleftrightarrow> d = a'"
    using prefix_space_unique [OF a' assms(1)] by simp
  finally show ?thesis
    using True c b a' by (auto simp: spec_declares_def takeWhile_upto)
qed

lemma collectDeclared_error:
  "list_ex spec_declared_no_value cavs \<Longrightarrow>
     collectDeclared cavs m0 = Inl (errgo_Newf ''declared caveat has no value'' [])"
  by (induction cavs arbitrary: m0) (auto simp: collectDeclared_step)

lemma collectDeclared_ok:
  "\<not> list_ex spec_declared_no_value cavs \<Longrightarrow>
     \<exists>declared. collectDeclared cavs m0 = Inr declared \<and>
       (\<forall>d. CHR '' '' \<notin> set d \<longrightarrow>
          lookup_bool declared d = (lookup_bool m0 d \<or> list_ex (\<lambda>cav. spec_declares cav d) cavs))"
proof (induction cavs arbitrary: m0)
  case Nil
  then show ?case by simp
next
  case (Cons cav cavs)
  then have nv: "\<not> spec_declared_no_value cav" and rest: "\<not> list_ex spec_declared_no_value cavs"
    by simp_all
  let ?m = "if Location cav = [] \<and> prefix ''declared '' (Condition cav)
         then m0(takeWhile (\<lambda>x. x \<noteq> CHR '' '') (drop 9 (Condition cav)) \<mapsto> True) else m0"
  from Cons.IH [OF rest, of ?m] obtain declared where
    d: "collectDeclared cavs ?m = Inr declared" and
    l: "\<And>d. CHR '' '' \<notin> set d \<Longrightarrow>
          lookup_bool declared d = (lookup_bool ?m d \<or> list_ex (\<lambda>cav. spec_declares cav d) cavs)"
    by blast
  have "collectDeclared (cav # cavs) m0 = Inr declared"
    using nv d by (simp add: collectDeclared_step)
  moreover have "lookup_bool declared d =
      (lookup_bool m0 d \<or> list_ex (\<lambda>cav. spec_declares cav d) (cav # cavs))"
    if "CHR '' '' \<notin> set d" for d
    using l [OF that] spec_declares_iff [OF that nv] by auto
  ultimately show ?case by blast
qed

lemma strings_Split_subset:
  "sep \<noteq> [] \<Longrightarrow> x \<in> set (strings_Split s sep) \<Longrightarrow> set x \<subseteq> set s"
proof (induction s sep rule: strings_Split.induct)
  case (1 s sep)
  show ?case
  proof (cases "strings_Index s sep < 0")
    case True
    with 1 show ?thesis by (subst (asm) (2) strings_Split.simps) simp
  next
    case False
    with "1.prems" have "x = take (nat (strings_Index s sep)) s \<or>
        x \<in> set (strings_Split (drop (nat (strings_Index s sep) + length sep) s) sep)"
      by (subst (asm) strings_Split.simps) simp
    then show ?thesis
    proof
      assume "x = take (nat (strings_Index s sep)) s"
      then show ?thesis by (simp add: set_take_subset)
    next
      assume "x \<in> set (strings_Split (drop (nat (strings_Index s sep) + length sep) s) sep)"
      with "1.IH" [OF "1.prems"(1) False "1.prems"(1)]
      have "set x \<subseteq> set (drop (nat (strings_Index s sep) + length sep) s)" by simp
      then show ?thesis using set_drop_subset by fast
    qed
  qed
qed

lemma checkNeedDeclared_eq:
  assumes names: "CHR '' '' \<notin> set names" and chk: "checker caveatId inner = Inr caveats"
  shows "checkNeedDeclared caveatId (names @ CHR '' '' # inner) checker =
     (if names = [] then
        Inl (errgo_Newf ''need-declared caveat requires an argument, got %q''
               [OpStr (names @ CHR '' '' # inner)])
      else if list_ex (\<lambda>d. d = []) (strings_Split names '','') then
        Inl (errgo_New ''need-declared caveat with empty required attribute'')
      else if list_ex spec_declared_no_value caveats then
        Inl (errgo_Newf ''declared caveat has no value'' [])
      else Inr (caveats @ map (\<lambda>d. DeclaredCaveat d [])
                  (filter (\<lambda>d. \<not> list_ex (\<lambda>cav. spec_declares cav d) caveats)
                     (strings_Split names '',''))))"
proof -
  have i: "strings_Index (names @ CHR '' '' # inner) '' '' = int (length names)"
    using names by (simp add: strings_Index_char takeWhile_upto)
  show ?thesis
  proof (cases "names = [] \<or> list_ex (\<lambda>d. d = []) (strings_Split names '','')")
    case True
    then show ?thesis
      by (auto simp: checkNeedDeclared_def i Let_def)
  next
    case False
    have ne: "strings_Split names '','' \<noteq> []"
      by (simp add: strings_Split_nonempty)
    show ?thesis
    proof (cases "list_ex spec_declared_no_value caveats")
      case True
      with False ne show ?thesis
        by (simp add: checkNeedDeclared_def i Let_def chk collectDeclared_error)
    next
      case nv: False
      from collectDeclared_ok [OF nv, of Map.empty] obtain declared where
        d: "collectDeclared caveats Map.empty = Inr declared" and
        l: "\<And>d. CHR '' '' \<notin> set d \<Longrightarrow>
              lookup_bool declared d = list_ex (\<lambda>cav. spec_declares cav d) caveats"
        by auto
      have "filter (\<lambda>d. \<not> lookup_bool declared d) (strings_Split names '','') =
            filter (\<lambda>d. \<not> list_ex (\<lambda>cav. spec_declares cav d) caveats) (strings_Split names '','')"
      proof (rule filter_cong [OF refl])
        fix d assume "d \<in> set (strings_Split names '','')"
        then have "set d \<subseteq> set names"
          using strings_Split_subset by blast
        with names have "CHR '' '' \<notin> set d" by blast
        then show "(\<not> lookup_bool declared d) = (\<not> list_ex (\<lambda>cav. spec_declares cav d) caveats)"
          using l by simp
      qed
      with False ne nv d show ?thesis
        by (simp add: checkNeedDeclared_def i Let_def chk appendUndeclared_eq)
    qed
  qed
qed

lemma collectDeclared_Inl:
  "collectDeclared cavs m0 = Inl e \<Longrightarrow> e = errgo_Newf ''declared caveat has no value'' []"
  by (induction cavs arbitrary: m0) (auto simp: collectDeclared_step split: if_splits)

section \<open>The claims\<close>

text \<open>
  C8. In \<open>checkNeedDeclared\<close> the branch guarded by \<open>len(needDeclared) == 0\<close> cannot be
  taken: for every argument that passes the checks before it (a space at an index
  \<open>i > 0\<close> and no empty entry), the list obtained by splitting the prefix at the commas
  has at least one element, and \<open>checkNeedDeclared\<close> never returns the error of that
  branch.
\<close>

theorem checkNeedDeclared_list_nonempty:
  assumes "0 < strings_Index arg '' ''"
      and "\<not> list_ex (\<lambda>d. d = []) (strings_Split (take (nat (strings_Index arg '' '')) arg) '','')"
  shows "1 \<le> length (strings_Split (take (nat (strings_Index arg '' '')) arg) '','')
         \<and> checkNeedDeclared caveatId arg checker
             \<noteq> Inl (Errorf ''need-declared caveat with no required attributes'' [])"
proof -
  have ne: "strings_Split (take (nat (strings_Index arg '' '')) arg) '','' \<noteq> []"
    by (simp add: strings_Split_nonempty)
  then have "1 \<le> length (strings_Split (take (nat (strings_Index arg '' '')) arg) '','')"
    by (cases "strings_Split (take (nat (strings_Index arg '' '')) arg) '',''") simp_all
  moreover have "checkNeedDeclared caveatId arg checker
      \<noteq> Inl (Errorf ''need-declared caveat with no required attributes'' [])"
    using ne
    by (auto simp: checkNeedDeclared_def Let_def errgo_Newf_def errgo_New_def errgo_Mask_def
             split: sum.splits dest!: collectDeclared_Inl)
  ultimately show ?thesis by simp
qed

theorem checkNeedDeclared_list_nonempty_witness:
  "0 < strings_Index ''user,group access-allowed'' '' '' \<and>
   \<not> list_ex (\<lambda>d. d = []) (strings_Split (take (nat (strings_Index ''user,group access-allowed'' '' '')) ''user,group access-allowed'') '','') \<and>
   1 \<le> length (strings_Split (take (nat (strings_Index ''user,group access-allowed'' '' '')) ''user,group access-allowed'') '','') \<and>
   checkNeedDeclared ''id'' ''user,group access-allowed'' demo_checker
     \<noteq> Inl (Errorf ''need-declared caveat with no required attributes'' [])"
proof -
  have h1: "0 < strings_Index ''user,group access-allowed'' '' ''"
    by code_simp
  have h2: "\<not> list_ex (\<lambda>d. d = []) (strings_Split (take (nat (strings_Index ''user,group access-allowed'' '' '')) ''user,group access-allowed'') '','')"
    by code_simp
  show ?thesis
    using h1 h2 checkNeedDeclared_list_nonempty [OF h1 h2, of "''id''" demo_checker] by simp
qed

text \<open>
  C10. When \<open>checkNeedDeclared\<close> decides which required attributes the checker's caveats
  already declare, it counts only first-party caveats (empty location) whose condition
  is \<open>declared <name> <value>\<close> with both parts present. Third-party caveats and
  conditions that do not parse so are skipped, so a name mentioned only in such caveats
  still receives an appended \<open>declared <name> ""\<close>. A first-party \<open>declared\<close> caveat whose
  argument has no value part makes \<open>checkNeedDeclared\<close> fail with an error.
\<close>

theorem checkNeedDeclared_counts_first_party_declared:
  assumes "CHR '' '' \<notin> set names" and "names \<noteq> []"
      and "\<not> list_ex (\<lambda>d. d = []) (strings_Split names '','')"
      and "checker caveatId inner = Inr caveats"
  shows "checkNeedDeclared caveatId (names @ '' '' @ inner) checker =
     (if list_ex spec_declared_no_value caveats
      then Inl (errgo_Newf ''declared caveat has no value'' [])
      else Inr (caveats @ map (\<lambda>d. DeclaredCaveat d [])
                  (filter (\<lambda>d. \<not> list_ex (\<lambda>cav. spec_declares cav d) caveats)
                     (strings_Split names '',''))))"
  using assms
    checkNeedDeclared_eq [where names = names and checker = checker and caveatId = caveatId
      and inner = inner and caveats = caveats]
  by simp

theorem checkNeedDeclared_counts_first_party_declared_witness:
  "CHR '' '' \<notin> set ''user,group'' \<and> ''user,group'' \<noteq> [] \<and>
   \<not> list_ex (\<lambda>d. d = []) (strings_Split ''user,group'' '','') \<and>
   demo_checker ''id'' ''access-allowed'' = Inr demo_extra \<and>
   checkNeedDeclared ''id'' (''user,group'' @ '' '' @ ''access-allowed'') demo_checker =
     Inr (demo_extra @ [DeclaredCaveat ''group'' []])"
proof -
  have h1: "CHR '' '' \<notin> set ''user,group''" by simp
  have h2: "''user,group'' \<noteq> []" by simp
  have h3: "\<not> list_ex (\<lambda>d. d = []) (strings_Split ''user,group'' '','')" by code_simp
  have h4: "demo_checker ''id'' ''access-allowed'' = Inr demo_extra"
    by (simp add: demo_checker_def)
  have e: "checkNeedDeclared ''id'' (''user,group'' @ '' '' @ ''access-allowed'') demo_checker =
     (if list_ex spec_declared_no_value demo_extra
      then Inl (errgo_Newf ''declared caveat has no value'' [])
      else Inr (demo_extra @ map (\<lambda>d. DeclaredCaveat d [])
                  (filter (\<lambda>d. \<not> list_ex (\<lambda>cav. spec_declares cav d) demo_extra)
                     (strings_Split ''user,group'' '',''))))"
    by (rule checkNeedDeclared_counts_first_party_declared [OF h1 h2 h3]) (rule h4)
  have v: "(if list_ex spec_declared_no_value demo_extra
      then Inl (errgo_Newf ''declared caveat has no value'' [])
      else Inr (demo_extra @ map (\<lambda>d. DeclaredCaveat d [])
                  (filter (\<lambda>d. \<not> list_ex (\<lambda>cav. spec_declares cav d) demo_extra)
                     (strings_Split ''user,group'' '','')))) =
     Inr (demo_extra @ [DeclaredCaveat ''group'' []])"
    by code_simp
  from e v have c: "checkNeedDeclared ''id'' (''user,group'' @ '' '' @ ''access-allowed'') demo_checker =
     Inr (demo_extra @ [DeclaredCaveat ''group'' []])"
    by (rule trans)
  show ?thesis
    using h1 h2 h3 h4 c by (intro conjI)
qed

text \<open>
  C1. For a discharge of a caveat whose condition is
  \<open>need-declared <csv-of-names> <inner-condition>\<close>, once the third-party checker has
  returned its extra caveats, the caveats returned by \<open>Discharge\<close> are the checker's
  caveats, untouched and in order, followed by \<open>declared <name> ""\<close> for each name of
  the list that no returned \<open>declared\<close> caveat declares; nothing is appended for a name
  the checker declared.
\<close>

theorem Discharge_need_declared:
  assumes dec: "decodeCaveatId D kp ident = Inr (rootKey, ''need-declared '' @ names @ '' '' @ inner)"
      and names: "CHR '' '' \<notin> set names"
      and chk: "checker ident inner = Inr caveats"
      and ok: "Discharge D kp checker ident = Inr (m, result)"
  shows "result = caveats @ map (\<lambda>d. DeclaredCaveat d [])
                    (filter (\<lambda>d. \<not> list_ex (\<lambda>cav. spec_declares cav d) caveats)
                       (strings_Split names '',''))"
proof -
  define condition where "condition = ''need-declared '' @ names @ '' '' @ inner"
  have c: "condition = ''need-declared'' @ CHR '' '' # (names @ CHR '' '' # inner)"
    by (simp add: condition_def)
  have p: "ParseCaveat condition = (''need-declared'', names @ CHR '' '' # inner)"
    unfolding c by (rule ParseCaveat_append) simp
  have d: "decodeCaveatId D kp ident = Inr (rootKey, condition)"
    using dec by (simp only: condition_def)
  from ok have "checkNeedDeclared ident (names @ CHR '' '' # inner) checker = Inr result"
    by (auto simp: Discharge_def d p CondNeedDeclared_def split: sum.splits)
  then show ?thesis
    using checkNeedDeclared_eq [where names = names and checker = checker and caveatId = ident
      and inner = inner and caveats = caveats] names chk
    by (auto split: if_splits)
qed

theorem Discharge_need_declared_witness:
  "decodeCaveatId demo_deps demo_key ''k|need-declared user,group access-allowed''
     = Inr (''k'', ''need-declared '' @ ''user,group'' @ '' '' @ ''access-allowed'') \<and>
   CHR '' '' \<notin> set ''user,group'' \<and>
   demo_checker ''k|need-declared user,group access-allowed'' ''access-allowed'' = Inr demo_extra \<and>
   Discharge demo_deps demo_key demo_checker ''k|need-declared user,group access-allowed''
     = Inr (\<lparr>m_location = [], m_id = ''k|need-declared user,group access-allowed'',
             m_caveats = [],
             m_sig = demo_hash (demo_makeKey ''k'') ''k|need-declared user,group access-allowed''\<rparr>,
            demo_extra @ [DeclaredCaveat ''group'' []]) \<and>
   demo_extra @ [DeclaredCaveat ''group'' []]
     = demo_extra @ map (\<lambda>d. DeclaredCaveat d [])
                    (filter (\<lambda>d. \<not> list_ex (\<lambda>cav. spec_declares cav d) demo_extra)
                       (strings_Split ''user,group'' '',''))"
proof -
  have h1: "decodeCaveatId demo_deps demo_key ''k|need-declared user,group access-allowed''
     = Inr (''k'', ''need-declared '' @ ''user,group'' @ '' '' @ ''access-allowed'')"
    by code_simp
  have h2: "CHR '' '' \<notin> set ''user,group''" by simp
  have h3: "demo_checker ''k|need-declared user,group access-allowed'' ''access-allowed'' = Inr demo_extra"
    by (simp add: demo_checker_def)
  have h4: "Discharge demo_deps demo_key demo_checker ''k|need-declared user,group access-allowed''
     = Inr (\<lparr>m_location = [], m_id = ''k|need-declared user,group access-allowed'',
             m_caveats = [],
             m_sig = demo_hash (demo_makeKey ''k'') ''k|need-declared user,group access-allowed''\<rparr>,
            demo_extra @ [DeclaredCaveat ''group'' []])"
    by code_simp
  show ?thesis
    using h1 h2 h3 h4 Discharge_need_declared [OF h1 h2 h3 h4] by (intro conjI)
qed

text \<open>
  C6. A successful \<open>Discharge(key, checker, id)\<close> returns the macaroon
  \<open>new(root-key, id, "")\<close>: its id is the caveat id that was discharged, its location
  is empty, it has no caveat yet, and its tag is the keyed hash of the id under the key
  derived from the root key that decoding the caveat id gave.
\<close>

theorem Discharge_macaroon:
  assumes "Discharge D kp checker ident = Inr (m, caveats)"
  shows "\<exists>rootKey condition.
           decodeCaveatId D kp ident = Inr (rootKey, condition) \<and>
           macaroon_New D rootKey ident [] = Inr m \<and>
           m_id m = ident \<and> m_location m = [] \<and> m_caveats m = [] \<and>
           m_sig m = keyedHash D (makeKey D rootKey) ident"
  using assms
  by (auto simp: Discharge_def macaroon_New_def split: sum.splits if_splits prod.splits)

theorem Discharge_macaroon_witness:
  "Discharge demo_deps demo_key demo_checker ''k|access-allowed''
     = Inr (\<lparr>m_location = [], m_id = ''k|access-allowed'', m_caveats = [],
             m_sig = ''H(K(k),k|access-allowed)''\<rparr>, demo_extra) \<and>
   (\<exists>rootKey condition.
      decodeCaveatId demo_deps demo_key ''k|access-allowed'' = Inr (rootKey, condition) \<and>
      macaroon_New demo_deps rootKey ''k|access-allowed'' []
        = Inr \<lparr>m_location = [], m_id = ''k|access-allowed'', m_caveats = [],
               m_sig = ''H(K(k),k|access-allowed)''\<rparr> \<and>
      ''H(K(k),k|access-allowed)''
        = keyedHash demo_deps (makeKey demo_deps rootKey) ''k|access-allowed'')"
proof -
  have h: "Discharge demo_deps demo_key demo_checker ''k|access-allowed''
     = Inr (\<lparr>m_location = [], m_id = ''k|access-allowed'', m_caveats = [],
             m_sig = ''H(K(k),k|access-allowed)''\<rparr>, demo_extra)"
    by code_simp
  show ?thesis
    using h Discharge_macaroon [OF h] by simp
qed

text \<open>
  C9. For the empty slice both \<open>Check\<close> and \<open>CheckWithKey\<close> return the verification error
  "no macaroons in slice". \<open>Check\<close> does so without reading the store (the world is
  left as it was, whatever the store does) and without panicking, also when the service
  has no store: the test for the empty slice comes before the test for the store.
\<close>

theorem Check_empty_slice:
  "Check D svc [] checker w
     = (Return (Some (VerificationError (Errorf ''no macaroons in slice'' []))), w) \<and>
   Check D (svc\<lparr>svc_store := None\<rparr>) [] checker w
     = (Return (Some (VerificationError (Errorf ''no macaroons in slice'' []))), w) \<and>
   CheckWithKey D svc [] rootKey checker
     = Some (VerificationError (Errorf ''no macaroons in slice'' []))"
  by (simp add: Check_def CheckWithKey_def)

text \<open>
  C2. When the store of the service has no item for the id of the primary macaroon
  (its \<open>Get\<close> returns an error whose cause is the not-found sentinel), \<open>Check\<close> returns a
  verification error with the reason "macaroon not found in storage", not the error of
  the store. Any other error of the store is returned under the note "cannot get
  macaroon", which is not a verification error and has none as its cause.
\<close>

theorem Check_store_miss:
  assumes "svc_store svc = Some st"
      and "store_Get st (m_id m) w = (Inl err, w')"
  shows "(errgo_Cause err = ErrNotFound \<longrightarrow>
            Check D svc (m # discharges) checker w
              = (Return (Some (VerificationError (errgo_New ''macaroon not found in storage''))), w')
            \<and> VerificationError (errgo_New ''macaroon not found in storage'') \<noteq> err) \<and>
         (errgo_Cause err \<noteq> ErrNotFound \<longrightarrow>
            Check D svc (m # discharges) checker w
              = (Return (Some (errgo_Notef err ''cannot get macaroon'' [])), w')
            \<and> \<not> isVerificationError (errgo_Notef err ''cannot get macaroon'' [])
            \<and> \<not> isVerificationError (errgo_Cause (errgo_Notef err ''cannot get macaroon'' [])))"
  using assms by (auto simp: Check_def errgo_Notef_def)

theorem Check_store_miss_witness:
  "svc_store demo_svc = Some demo_store \<and>
   store_Get demo_store (m_id (demo_macaroon ''gone'' [])) [] = (Inl ErrNotFound, [''get gone'']) \<and>
   errgo_Cause ErrNotFound = ErrNotFound \<and>
   Check demo_deps demo_svc [demo_macaroon ''gone'' []] demo_accept []
     = (Return (Some (VerificationError (errgo_New ''macaroon not found in storage''))), [''get gone'']) \<and>
   store_Get demo_store (m_id (demo_macaroon ''broken'' [])) []
     = (Inl (Errorf ''disk failure'' []), [''get broken'']) \<and>
   errgo_Cause (Errorf ''disk failure'' []) \<noteq> ErrNotFound \<and>
   Check demo_deps demo_svc [demo_macaroon ''broken'' []] demo_accept []
     = (Return (Some (errgo_Notef (Errorf ''disk failure'' []) ''cannot get macaroon'' [])), [''get broken''])"
proof -
  have s: "svc_store demo_svc = Some demo_store"
    by (simp add: demo_svc_def)
  have g1: "store_Get demo_store (m_id (demo_macaroon ''gone'' [])) [] = (Inl ErrNotFound, [''get gone''])"
    by code_simp
  have g2: "store_Get demo_store (m_id (demo_macaroon ''broken'' [])) []
     = (Inl (Errorf ''disk failure'' []), [''get broken''])"
    by code_simp
  show ?thesis
    using s g1 g2
      Check_store_miss [OF s g1, of demo_deps "[]" demo_accept]
      Check_store_miss [OF s g2, of demo_deps "[]" demo_accept]
    by simp
qed

lemma spec_all_fail_length:
  "spec_all_fail D svc assert checker mss w = Some (es, w1) \<Longrightarrow> length es = length mss"
  by (induction mss arbitrary: w es)
     (auto split: prod.splits outcome.splits option.splits)

lemma CheckAnyM_loop_failed_prefix:
  "spec_all_fail D svc assert checker pre w = Some (es, w1) \<Longrightarrow>
     CheckAnyM_loop D svc (pre @ rest) assert checker err w
       = CheckAnyM_loop D svc rest assert checker (if es = [] then err else Some (last es)) w1"
proof (induction pre arbitrary: w es err)
  case Nil
  then show ?case by simp
next
  case (Cons ms pre)
  from Cons.prems obtain e w' es' where
    c: "Check D svc ms (checkers_New D (InferDeclared D ms ++ assert) checker) w
          = (Return (Some e), w')" and
    r: "spec_all_fail D svc assert checker pre w' = Some (es', w1)" and
    es: "es = e # es'"
    by (auto split: prod.splits outcome.splits option.splits)
  show ?case
    using c es Cons.IH [OF r, of "Some e"] by simp
qed

lemma errgo_Mask_verification_cause:
  "isVerificationError e \<Longrightarrow> errgo_Cause (errgo_Mask e [isVerificationError]) = e"
  by (cases e) (simp_all add: errgo_Mask_def)

lemma errgo_Mask_cause_kind:
  "isVerificationError (errgo_Cause (errgo_Mask e [isVerificationError]))
     = isVerificationError (errgo_Cause e)"
  by (simp add: errgo_Mask_def)

text \<open>
  C3. For a non-empty list of slices \<open>CheckAnyM\<close>, and with it \<open>CheckAny\<close>, returns the
  first slice in order that passes \<open>Check\<close>, with the declared map of that slice and a
  nil error, and checks no later slice: the world it leaves is the world after the
  check of that slice, whatever follows it in the list. If every slice fails, it
  returns the error of the last slice, masked so that its cause is that error when it
  is a verification error.
\<close>

theorem CheckAnyM_first_success_or_last_error:
  shows "(spec_all_fail D svc assert checker pre w = Some (es, w1) \<and>
          Check D svc ms (checkers_New D (InferDeclared D ms ++ assert) checker) w1
            = (Return None, w2) \<longrightarrow>
            CheckAnyM D svc (pre @ ms # post) assert checker w
              = (Return (Some (InferDeclared D ms ++ assert), Some ms, None), w2) \<and>
            CheckAny D svc (pre @ ms # post) assert checker w
              = (Return (Some (InferDeclared D ms ++ assert), None), w2)) \<and>
         (mss \<noteq> [] \<and> spec_all_fail D svc assert checker mss w = Some (es, w1) \<longrightarrow>
            CheckAnyM D svc mss assert checker w
              = (Return (None, None, Some (errgo_Mask (last es) [isVerificationError])), w1) \<and>
            CheckAny D svc mss assert checker w
              = (Return (None, Some (errgo_Mask (last es) [isVerificationError])), w1) \<and>
            (isVerificationError (last es) \<longrightarrow>
               errgo_Cause (errgo_Mask (last es) [isVerificationError]) = last es) \<and>
            isVerificationError (errgo_Cause (errgo_Mask (last es) [isVerificationError]))
              = isVerificationError (errgo_Cause (last es)))"
proof (intro conjI impI)
  assume a: "spec_all_fail D svc assert checker pre w = Some (es, w1) \<and>
          Check D svc ms (checkers_New D (InferDeclared D ms ++ assert) checker) w1
            = (Return None, w2)"
  then show m: "CheckAnyM D svc (pre @ ms # post) assert checker w
              = (Return (Some (InferDeclared D ms ++ assert), Some ms, None), w2)"
    using CheckAnyM_loop_failed_prefix [of D svc "assert" checker pre w es w1 "ms # post" None]
    by (simp add: CheckAnyM_def)
  show "CheckAny D svc (pre @ ms # post) assert checker w
              = (Return (Some (InferDeclared D ms ++ assert), None), w2)"
    by (simp add: CheckAny_def m)
next
  assume b: "mss \<noteq> [] \<and> spec_all_fail D svc assert checker mss w = Some (es, w1)"
  then have "es \<noteq> []"
    using spec_all_fail_length [of D svc "assert" checker mss w es w1] by auto
  with b show m: "CheckAnyM D svc mss assert checker w
              = (Return (None, None, Some (errgo_Mask (last es) [isVerificationError])), w1)"
    using CheckAnyM_loop_failed_prefix [of D svc "assert" checker mss w es w1 "[]" None]
    by (simp add: CheckAnyM_def)
  show "CheckAny D svc mss assert checker w
              = (Return (None, Some (errgo_Mask (last es) [isVerificationError])), w1)"
    by (simp add: CheckAny_def m)
next
  assume "isVerificationError (last es)"
  then show "errgo_Cause (errgo_Mask (last es) [isVerificationError]) = last es"
    by (rule errgo_Mask_verification_cause)
next
  show "isVerificationError (errgo_Cause (errgo_Mask (last es) [isVerificationError]))
              = isVerificationError (errgo_Cause (last es))"
    by (rule errgo_Mask_cause_kind)
qed


theorem CheckAnyM_first_success_or_last_error_witness:
  "spec_all_fail demo_deps demo_svc Map.empty demo_accept [[], [demo_macaroon ''gone'' []]] []
     = Some ([VerificationError (Errorf ''no macaroons in slice'' []),
              VerificationError (errgo_New ''macaroon not found in storage'')], [''get gone'']) \<and>
   Check demo_deps demo_svc [demo_macaroon ''m1'' [''ok'']]
       (checkers_New demo_deps (InferDeclared demo_deps [demo_macaroon ''m1'' [''ok'']] ++ Map.empty)
          demo_accept) [''get gone'']
     = (Return None, [''get gone'', ''get m1'']) \<and>
   CheckAnyM demo_deps demo_svc
       ([[], [demo_macaroon ''gone'' []]] @ [demo_macaroon ''m1'' [''ok'']]
          # [[demo_macaroon ''broken'' []]]) Map.empty demo_accept []
     = (Return (Some (InferDeclared demo_deps [demo_macaroon ''m1'' [''ok'']] ++ Map.empty),
                Some [demo_macaroon ''m1'' [''ok'']], None), [''get gone'', ''get m1'']) \<and>
   [[demo_macaroon ''broken'' []], [demo_macaroon ''gone'' []]] \<noteq> [] \<and>
   spec_all_fail demo_deps demo_svc Map.empty demo_accept
       [[demo_macaroon ''broken'' []], [demo_macaroon ''gone'' []]] []
     = Some ([errgo_Notef (Errorf ''disk failure'' []) ''cannot get macaroon'' [],
              VerificationError (errgo_New ''macaroon not found in storage'')],
             [''get broken'', ''get gone'']) \<and>
   CheckAnyM demo_deps demo_svc [[demo_macaroon ''broken'' []], [demo_macaroon ''gone'' []]]
       Map.empty demo_accept []
     = (Return (None, None,
          Some (errgo_Mask (VerificationError (errgo_New ''macaroon not found in storage''))
                  [isVerificationError])), [''get broken'', ''get gone'']) \<and>
   errgo_Cause (errgo_Mask (VerificationError (errgo_New ''macaroon not found in storage''))
                  [isVerificationError])
     = VerificationError (errgo_New ''macaroon not found in storage'')"
proof -
  have a1: "spec_all_fail demo_deps demo_svc Map.empty demo_accept [[], [demo_macaroon ''gone'' []]] []
     = Some ([VerificationError (Errorf ''no macaroons in slice'' []),
              VerificationError (errgo_New ''macaroon not found in storage'')], [''get gone''])"
    by code_simp
  have a2: "Check demo_deps demo_svc [demo_macaroon ''m1'' [''ok'']]
       (checkers_New demo_deps (InferDeclared demo_deps [demo_macaroon ''m1'' [''ok'']] ++ Map.empty)
          demo_accept) [''get gone'']
     = (Return None, [''get gone'', ''get m1''])"
    by code_simp
  have b1: "[[demo_macaroon ''broken'' []], [demo_macaroon ''gone'' []]] \<noteq> []"
    by simp
  have b2: "spec_all_fail demo_deps demo_svc Map.empty demo_accept
       [[demo_macaroon ''broken'' []], [demo_macaroon ''gone'' []]] []
     = Some ([errgo_Notef (Errorf ''disk failure'' []) ''cannot get macaroon'' [],
              VerificationError (errgo_New ''macaroon not found in storage'')],
             [''get broken'', ''get gone''])"
    by code_simp
  show ?thesis
    using a1 a2 b1 b2
      CheckAnyM_first_success_or_last_error
        [where D = demo_deps and svc = demo_svc and assert = Map.empty and checker = demo_accept
           and pre = "[[], [demo_macaroon ''gone'' []]]" and w = "[]"
           and es = "[VerificationError (Errorf ''no macaroons in slice'' []),
                      VerificationError (errgo_New ''macaroon not found in storage'')]"
           and ?w1.0 = "[''get gone'']" and ms = "[demo_macaroon ''m1'' [''ok'']]"
           and ?w2.0 = "[''get gone'', ''get m1'']" and post = "[[demo_macaroon ''broken'' []]]"
           and mss = "[[]]"]
      CheckAnyM_first_success_or_last_error
        [where D = demo_deps and svc = demo_svc and assert = Map.empty and checker = demo_accept
           and w = "[]"
           and es = "[errgo_Notef (Errorf ''disk failure'' []) ''cannot get macaroon'' [],
                      VerificationError (errgo_New ''macaroon not found in storage'')]"
           and ?w1.0 = "[''get broken'', ''get gone'']"
           and mss = "[[demo_macaroon ''broken'' []], [demo_macaroon ''gone'' []]]"]
    by simp
qed

lemma CheckAnyM_loop_declared:
  "CheckAnyM_loop D svc mss assert checker err w = (Return (Some declared, r_ms, r_err), w') \<Longrightarrow>
     \<exists>ms. declared = InferDeclared D ms ++ assert"
  by (induction mss arbitrary: err w)
     (auto split: prod.splits outcome.splits option.splits)

lemma CheckWithKey_checkers_New_update [simp]:
  "CheckWithKey (D\<lparr>checkers_New := N\<rparr>) svc ms rootKey chk = CheckWithKey D svc ms rootKey chk"
  by (cases ms) (simp_all add: CheckWithKey_def)

lemma Check_checkers_New_update [simp]:
  "Check (D\<lparr>checkers_New := N\<rparr>) svc ms chk w = Check D svc ms chk w"
  by (simp add: Check_def split: list.splits option.splits prod.splits sum.splits)

lemma CheckAnyM_loop_checker_maps:
  assumes "\<And>d c. (\<forall>a v. assert a = Some v \<longrightarrow> d a = Some v) \<Longrightarrow> N d c = N' d c"
  shows "CheckAnyM_loop (D\<lparr>checkers_New := N\<rparr>) svc mss assert checker err w
           = CheckAnyM_loop (D\<lparr>checkers_New := N'\<rparr>) svc mss assert checker err w"
proof (induction mss arbitrary: err w)
  case Nil
  show ?case by simp
next
  case (Cons ms mss)
  have "N (InferDeclared D ms ++ assert) checker = N' (InferDeclared D ms ++ assert) checker"
    by (rule assms) (simp add: map_add_def)
  then show ?case
    using Cons.IH by (simp split: prod.splits outcome.splits option.splits)
qed

text \<open>
  C5. For every call \<open>CheckAnyM(mss, assert, checker)\<close> and every attribute \<open>a\<close> of
  \<open>assert\<close>, the declared map returned on success maps \<open>a\<close> to \<open>assert[a]\<close>, whatever was
  inferred for \<open>a\<close> from the macaroons, and so does every declared map handed to
  \<open>checkers.New\<close> for a slice: two ways of building the checker that agree on all maps
  carrying the asserted values give the same result.
\<close>

theorem CheckAnyM_assert_overrides:
  shows "(CheckAnyM D svc mss assert checker w = (Return (Some declared, r_ms, r_err), w') \<and>
          assert a = Some v \<longrightarrow> declared a = Some v) \<and>
         ((\<forall>d c. (\<forall>a v. assert a = Some v \<longrightarrow> d a = Some v) \<longrightarrow> N d c = N' d c) \<longrightarrow>
            CheckAnyM (D\<lparr>checkers_New := N\<rparr>) svc mss assert checker w
              = CheckAnyM (D\<lparr>checkers_New := N'\<rparr>) svc mss assert checker w)"
proof (intro conjI impI)
  assume a: "CheckAnyM D svc mss assert checker w = (Return (Some declared, r_ms, r_err), w') \<and>
          assert a = Some v"
  then have "CheckAnyM_loop D svc mss assert checker None w
               = (Return (Some declared, r_ms, r_err), w')"
    by (auto simp: CheckAnyM_def split: if_splits)
  then have "\<exists>ms. declared = InferDeclared D ms ++ assert"
    by (rule CheckAnyM_loop_declared)
  with a show "declared a = Some v"
    by (auto simp: map_add_def)
next
  assume "\<forall>d c. (\<forall>a v. assert a = Some v \<longrightarrow> d a = Some v) \<longrightarrow> N d c = N' d c"
  then show "CheckAnyM (D\<lparr>checkers_New := N\<rparr>) svc mss assert checker w
              = CheckAnyM (D\<lparr>checkers_New := N'\<rparr>) svc mss assert checker w"
    using CheckAnyM_loop_checker_maps [of "assert" N N' D svc mss checker None w]
    by (simp add: CheckAnyM_def)
qed


theorem CheckAnyM_assert_overrides_witness:
  "CheckAnyM demo_infer_mallory demo_svc [[demo_macaroon ''m1'' [''declared user alice'']]]
       [''user'' \<mapsto> ''alice''] demo_accept []
     = (Return (Some (InferDeclared demo_infer_mallory [demo_macaroon ''m1'' [''declared user alice'']]
                        ++ [''user'' \<mapsto> ''alice'']),
                Some [demo_macaroon ''m1'' [''declared user alice'']], None), [''get m1'']) \<and>
   [''user'' \<mapsto> ''alice''] ''user'' = Some ''alice'' \<and>
   InferDeclared demo_infer_mallory [demo_macaroon ''m1'' [''declared user alice'']] ''user''
     = Some ''mallory'' \<and>
   (InferDeclared demo_infer_mallory [demo_macaroon ''m1'' [''declared user alice'']]
      ++ [''user'' \<mapsto> ''alice'']) ''user'' = Some ''alice'' \<and>
   CheckAnyM (demo_infer_mallory\<lparr>checkers_New := demo_checkers_New\<rparr>) demo_svc
       [[demo_macaroon ''m1'' [''declared user alice'']]] [''user'' \<mapsto> ''alice''] demo_accept []
     = CheckAnyM (demo_infer_mallory\<lparr>checkers_New := demo_strict_New\<rparr>) demo_svc
       [[demo_macaroon ''m1'' [''declared user alice'']]] [''user'' \<mapsto> ''alice''] demo_accept []"
proof -
  have c: "Check demo_infer_mallory demo_svc [demo_macaroon ''m1'' [''declared user alice'']]
       (checkers_New demo_infer_mallory
          (InferDeclared demo_infer_mallory [demo_macaroon ''m1'' [''declared user alice'']]
             ++ [''user'' \<mapsto> ''alice'']) demo_accept) []
     = (Return None, [''get m1''])"
    by code_simp
  have h: "CheckAnyM demo_infer_mallory demo_svc [[demo_macaroon ''m1'' [''declared user alice'']]]
       [''user'' \<mapsto> ''alice''] demo_accept []
     = (Return (Some (InferDeclared demo_infer_mallory [demo_macaroon ''m1'' [''declared user alice'']]
                        ++ [''user'' \<mapsto> ''alice'']),
                Some [demo_macaroon ''m1'' [''declared user alice'']], None), [''get m1''])"
    by (simp add: CheckAnyM_def c del: map_add_upd)
  have a: "[''user'' \<mapsto> ''alice''] ''user'' = Some ''alice''"
    by simp
  have i: "InferDeclared demo_infer_mallory [demo_macaroon ''m1'' [''declared user alice'']] ''user''
     = Some ''mallory''"
    by (simp add: demo_infer_mallory_def)
  have n: "\<forall>d c. (\<forall>a v. [''user'' \<mapsto> ''alice''] a = Some v \<longrightarrow> d a = Some v)
             \<longrightarrow> demo_checkers_New d c = demo_strict_New d c"
    by (simp add: demo_strict_New_def)
  have t1: "(InferDeclared demo_infer_mallory [demo_macaroon ''m1'' [''declared user alice'']]
      ++ [''user'' \<mapsto> ''alice'']) ''user'' = Some ''alice''"
    using h a
      CheckAnyM_assert_overrides
        [where D = demo_infer_mallory and svc = demo_svc
           and mss = "[[demo_macaroon ''m1'' [''declared user alice'']]]"
           and assert = "[''user'' \<mapsto> ''alice'']" and checker = demo_accept and w = "[]"
           and declared = "InferDeclared demo_infer_mallory [demo_macaroon ''m1'' [''declared user alice'']]
                        ++ [''user'' \<mapsto> ''alice'']"
           and r_ms = "Some [demo_macaroon ''m1'' [''declared user alice'']]" and r_err = None
           and w' = "[''get m1'']" and a = "''user''" and v = "''alice''"
           and N = demo_checkers_New and N' = demo_strict_New]
    by blast
  have t2: "CheckAnyM (demo_infer_mallory\<lparr>checkers_New := demo_checkers_New\<rparr>) demo_svc
       [[demo_macaroon ''m1'' [''declared user alice'']]] [''user'' \<mapsto> ''alice''] demo_accept []
     = CheckAnyM (demo_infer_mallory\<lparr>checkers_New := demo_strict_New\<rparr>) demo_svc
       [[demo_macaroon ''m1'' [''declared user alice'']]] [''user'' \<mapsto> ''alice''] demo_accept []"
    using n
      CheckAnyM_assert_overrides
        [where D = demo_infer_mallory and svc = demo_svc
           and mss = "[[demo_macaroon ''m1'' [''declared user alice'']]]"
           and assert = "[''user'' \<mapsto> ''alice'']" and checker = demo_accept and w = "[]"
           and N = demo_checkers_New and N' = demo_strict_New]
    by blast
  show ?thesis
    using h a i t1 t2 by (intro conjI)
qed





text \<open>
  C7. A service made by \<open>NewService\<close> with a nil locator has the empty locator, whose
  lookup fails for every location. For such a service \<open>AddCaveat\<close> returns an error for
  every caveat whose location is neither empty nor begins with \<open>"local "\<close>, and the
  macaroon gains no caveat.
\<close>

theorem AddCaveat_without_locator:
  assumes "NewService D p w0 = (Inr svc, w1)"
      and "p_Locator p = None"
      and "Location cav \<noteq> []"
      and "\<not> strings_HasPrefix (Location cav) ''local ''"
  shows "svc_locator svc = PublicKeyLocatorMap Map.empty \<and>
         AddCaveat D svc m cav w
           = ((Some (errgo_Notef ErrNotFound ''cannot find public key for location %q''
                       [OpStr (Location cav)]), m), w)"
proof -
  from assms(1,2) have l: "svc_locator svc = PublicKeyLocatorMap Map.empty"
    by (auto simp: NewService_def split: prod.splits sum.splits)
  then show ?thesis
    using assms(3,4)
    by (simp add: AddCaveat_def AddCaveat_target_def PublicKeyLocatorMap_def)
qed


theorem AddCaveat_without_locator_witness:
  "NewService demo_deps demo_params [] = (Inr demo_svc, []) \<and>
   p_Locator demo_params = None \<and>
   Location \<lparr>Location = ''https://auth'', Condition = ''access-allowed''\<rparr> \<noteq> [] \<and>
   \<not> strings_HasPrefix (Location \<lparr>Location = ''https://auth'', Condition = ''access-allowed''\<rparr>)
        ''local '' \<and>
   AddCaveat demo_deps demo_svc (demo_macaroon ''m1'' [])
       \<lparr>Location = ''https://auth'', Condition = ''access-allowed''\<rparr> []
     = ((Some (errgo_Notef ErrNotFound ''cannot find public key for location %q''
                 [OpStr ''https://auth'']), demo_macaroon ''m1'' []), [])"
proof -
  have n: "NewService demo_deps demo_params [] = (Inr demo_svc, [])"
    by (simp add: NewService_def demo_params_def demo_svc_def)
  have p: "p_Locator demo_params = None"
    by (simp add: demo_params_def)
  have l: "Location \<lparr>Location = ''https://auth'', Condition = ''access-allowed''\<rparr> \<noteq> []"
    by simp
  have h: "\<not> strings_HasPrefix (Location \<lparr>Location = ''https://auth'', Condition = ''access-allowed''\<rparr>)
        ''local ''"
    by (simp add: strings_HasPrefix_def)
  show ?thesis
    using n p l h
      AddCaveat_without_locator [OF n p l h, of "demo_macaroon ''m1'' []" "[]"]
    by simp
qed

end
